theory Spec2Isabelle
  imports Main "HOL-Library.Char_ord" "HOL-Library.List_Lexorder" "HOL-Library.AList"
    "HOL-Library.Multiset"
begin

section \<open>The kanban board of get-shit-done/tools/kanban.js\<close>

text \<open>
  The board keeps todo files in two directories, \<^verbatim>\<open>.planning/todos/pending\<close> and
  \<^verbatim>\<open>.planning/todos/done\<close>.  A card changes lane when its file is renamed from one
  directory into the other.  This theory embeds \<^verbatim>\<open>safeBasename\<close>,
  \<^verbatim>\<open>parseFrontmatter\<close>, \<^verbatim>\<open>readTodos\<close> and the request handler of \<^verbatim>\<open>main\<close>.

  JavaScript strings are modelled as \<^typ>\<open>string\<close>: one \<^typ>\<open>char\<close> per code unit, code
  units below 256.  \<^verbatim>\<open>Array.prototype.sort\<close> without a comparator orders strings by code
  unit, which is the lexicographic order of \<^typ>\<open>string\<close>.
\<close>

subsection \<open>String primitives\<close>

abbreviation LF :: char where "LF \<equiv> CHR 0x0A"
abbreviation CR :: char where "CR \<equiv> CHR 0x0D"

definition startsWith :: "string \<Rightarrow> string \<Rightarrow> bool" where
  "startsWith s pre = (take (length pre) s = pre)"

definition endsWith :: "string \<Rightarrow> string \<Rightarrow> bool" where
  "endsWith s suf = (length suf \<le> length s \<and> drop (length s - length suf) s = suf)"

text \<open>\<^verbatim>\<open>[a-zA-Z0-9]\<close>\<close>

definition is_alnum :: "char \<Rightarrow> bool" where
  "is_alnum c = ((CHR ''a'' \<le> c \<and> c \<le> CHR ''z'') \<or> (CHR ''A'' \<le> c \<and> c \<le> CHR ''Z'')
                 \<or> (CHR ''0'' \<le> c \<and> c \<le> CHR ''9''))"

text \<open>
  The characters that \<^verbatim>\<open>\s\<close> matches and \<^verbatim>\<open>trim\<close> strips, among code units below 256:
  tab, line feed, vertical tab, form feed, carriage return, space, no-break space.
\<close>

definition is_space :: "char \<Rightarrow> bool" where
  "is_space c = (c = CHR 0x09 \<or> c = LF \<or> c = CHR 0x0B \<or> c = CHR 0x0C \<or> c = CR
                 \<or> c = CHR 0x20 \<or> c = CHR 0xA0)"

text \<open>The characters that \<^verbatim>\<open>.\<close> does not match.\<close>

definition is_line_terminator :: "char \<Rightarrow> bool" where
  "is_line_terminator c = (c = LF \<or> c = CR)"

definition trim :: "string \<Rightarrow> string" where
  "trim s = rev (dropWhile is_space (rev (dropWhile is_space s)))"

text \<open>\<^verbatim>\<open>s.indexOf(pat, pos)\<close>: the first index at or after \<open>pos\<close> where \<open>pat\<close> occurs;
  \<open>None\<close> stands for \<open>-1\<close>.\<close>

fun find_at :: "string \<Rightarrow> string \<Rightarrow> nat \<Rightarrow> nat option" where
  "find_at pat [] i = (if pat = [] then Some i else None)"
| "find_at pat (c # cs) i = (if startsWith (c # cs) pat then Some i else find_at pat cs (Suc i))"

definition indexOf :: "string \<Rightarrow> string \<Rightarrow> nat \<Rightarrow> nat option" where
  "indexOf s pat pos = find_at pat (drop pos s) (min pos (length s))"

text \<open>\<^verbatim>\<open>s.slice(a, b)\<close> for \<open>0 \<le> a\<close>, \<open>0 \<le> b\<close>.\<close>

definition slice :: "string \<Rightarrow> nat \<Rightarrow> nat \<Rightarrow> string" where
  "slice s a b = take (b - a) (drop a s)"

text \<open>\<^verbatim>\<open>xs.join(',')\<close>, which is what \<^verbatim>\<open>toString\<close> of an array of strings returns.\<close>

fun join_comma :: "string list \<Rightarrow> string" where
  "join_comma [] = []"
| "join_comma [x] = x"
| "join_comma (x # y # ys) = x @ '','' @ join_comma (y # ys)"

text \<open>\<^verbatim>\<open>s.split(/\r?\n/)\<close>: a cut at every line feed, which takes a carriage return
  just before it along.\<close>

fun add_char :: "char \<Rightarrow> string list \<Rightarrow> string list" where
  "add_char c [] = [[c]]"
| "add_char c (l # ls) = (c # l) # ls"

fun split_lines :: "string \<Rightarrow> string list" where
  "split_lines [] = [[]]"
| "split_lines [c] = (if c = LF then [[], []] else [[c]])"
| "split_lines (c # d # ds) =
     (if c = LF then [] # split_lines (d # ds)
      else if c = CR \<and> d = LF then [] # split_lines ds
      else add_char c (split_lines (d # ds)))"

subsection \<open>safeBasename\<close>

text \<open>
  \<^verbatim>\<open>path.basename\<close> of Node (POSIX flavour): trailing slashes are dropped, then the
  part after the last remaining slash is returned.
\<close>

definition basename :: "string \<Rightarrow> string" where
  "basename p =
     rev (takeWhile (\<lambda>c. c \<noteq> CHR ''/'') (dropWhile (\<lambda>c. c = CHR ''/'') (rev p)))"

text \<open>\<^verbatim>\<open>[a-zA-Z0-9._-]\<close>\<close>

definition is_name_char :: "char \<Rightarrow> bool" where
  "is_name_char c = (is_alnum c \<or> c = CHR ''.'' \<or> c = CHR ''_'' \<or> c = CHR ''-'')"

text \<open>\<^verbatim>\<open>/^[a-zA-Z0-9._-]+\.md$/.test(s)\<close>: at least one allowed character, then \<^verbatim>\<open>.md\<close>,
  then the end of the string.\<close>

definition name_pattern :: "string \<Rightarrow> bool" where
  "name_pattern s =
     (3 < length s \<and> endsWith s ''.md'' \<and> list_all is_name_char (take (length s - 3) s))"

definition safeBasename :: "string \<Rightarrow> string option" where
  "safeBasename name =
     (let base = basename name in
      if base \<noteq> name then None
      else if \<not> name_pattern base then None
      else Some base)"

subsection \<open>parseFrontmatter\<close>

text \<open>A front-matter value is a string or an array of strings.\<close>

datatype fmvalue = Scalar string | ListV "string list"

type_synonym frontmatter = "string \<rightharpoonup> fmvalue"

text \<open>\<^verbatim>\<open>[a-zA-Z0-9_-]\<close>\<close>

definition is_key_char :: "char \<Rightarrow> bool" where
  "is_key_char c = (is_alnum c \<or> c = CHR ''_'' \<or> c = CHR ''-'')"

text \<open>
  \<^verbatim>\<open>line.match(/^([a-zA-Z0-9_-]+):\s*(.*)$/)\<close>, giving groups 1 and 2.  The key is the
  longest run of key characters and must be followed by a colon; the white space after
  the colon is skipped; what is left must reach the end of the line without a line
  terminator, which \<^verbatim>\<open>.\<close> does not match.
\<close>

definition match_key :: "string \<Rightarrow> (string \<times> string) option" where
  "match_key line =
     (let key = takeWhile is_key_char line in
      if key = [] then None
      else case dropWhile is_key_char line of
             [] \<Rightarrow> None
           | c # after \<Rightarrow>
               if c \<noteq> CHR '':'' then None
               else let v = dropWhile is_space after in
                    if list_ex is_line_terminator v then None else Some (key, v))"

text \<open>\<^verbatim>\<open>line.match(/^\s*-\s*(.*)$/)\<close>, giving group 1.\<close>

definition match_item :: "string \<Rightarrow> string option" where
  "match_item line =
     (case dropWhile is_space line of
        [] \<Rightarrow> None
      | c # after \<Rightarrow>
          if c \<noteq> CHR ''-'' then None
          else let v = dropWhile is_space after in
               if list_ex is_line_terminator v then None else Some v)"

text \<open>
  The body of the loop over the lines; the state is the object built so far and
  \<^verbatim>\<open>currentKey\<close>.  The object is read and written under computed keys only, so it is a
  map from keys to values.  It starts as \<^verbatim>\<open>{}\<close>, so one key is special in JavaScript:
  \<^verbatim>\<open>__proto__\<close> names the prototype of the object; storing an array under it replaces
  the prototype, storing a string does nothing, and reading it gives the prototype
  back.  The entry of the map under that key stands for a prototype that is an array.
\<close>

fun parse_line :: "string \<Rightarrow> frontmatter \<times> string option \<Rightarrow> frontmatter \<times> string option" where
  "parse_line line (fm, currentKey) =
     (case match_key line of
        Some (k, v) \<Rightarrow>
          (if v = [] then fm(k \<mapsto> ListV [])
           else if k = ''__proto__'' then fm
           else fm(k \<mapsto> Scalar v),
           Some k)
      | None \<Rightarrow>
          (case match_item line of
             None \<Rightarrow> (fm, currentKey)
           | Some it \<Rightarrow>
               (case currentKey of
                  None \<Rightarrow> (fm, currentKey)
                | Some k \<Rightarrow>
                    (case fm k of
                       Some (ListV xs) \<Rightarrow> (fm(k \<mapsto> ListV (xs @ [it])), currentKey)
                     | _ \<Rightarrow> (fm, currentKey)))))"

definition parse_lines :: "string list \<Rightarrow> frontmatter" where
  "parse_lines ls = fst (fold parse_line ls (Map.empty, None))"

definition parseFrontmatter :: "string \<Rightarrow> frontmatter \<times> string" where
  "parseFrontmatter md =
     (if \<not> startsWith md ''---'' then (Map.empty, md)
      else case indexOf md (LF # ''---'') 3 of
             None \<Rightarrow> (Map.empty, md)
           | Some end \<Rightarrow>
               (let fmRaw = trim (slice md 3 end);
                    body = drop (end + 4) md
                in (parse_lines (split_lines fmRaw), body)))"

subsection \<open>The two directories\<close>

text \<open>
  \<^verbatim>\<open>ensureTodoDirs\<close> fixes two directories, one for each status; a status names its
  directory.  A directory holds regular files under distinct names, in the order in which
  \<^verbatim>\<open>readdirSync\<close> happens to report them.  A file may be unreadable (\<^verbatim>\<open>readFileSync\<close>
  throws), a directory may be missing, a directory may refuse changes to its entries,
  and what exists at the path of a directory may refuse to be listed (\<^verbatim>\<open>readdirSync\<close>
  throws): a directory without read permission, or something that is no directory.
\<close>

datatype status = Pending | Done

datatype entry = File (readable: bool) (content: string)

record directory =
  listable :: bool
  writable :: bool
  entries :: "(string \<times> entry) list"

record fsys =
  pendingDir :: "directory option"
  doneDir :: "directory option"

datatype path = DirPath status | FilePath status string

datatype fs_error = ENOENT | EACCES

text \<open>Every call into \<^verbatim>\<open>fs\<close> is recorded, in the order of the calls.\<close>

datatype fs_op =
    ExistsSync path
  | ReaddirSync path
  | ReadFileSync path
  | RenameSync path path

fun is_write :: "fs_op \<Rightarrow> bool" where
  "is_write (RenameSync p q) = True"
| "is_write op = False"

fun fs_dir :: "fsys \<Rightarrow> status \<Rightarrow> directory option" where
  "fs_dir fs Pending = pendingDir fs"
| "fs_dir fs Done = doneDir fs"

fun set_dir :: "fsys \<Rightarrow> status \<Rightarrow> directory \<Rightarrow> fsys" where
  "set_dir fs Pending d = fs\<lparr>pendingDir := Some d\<rparr>"
| "set_dir fs Done d = fs\<lparr>doneDir := Some d\<rparr>"

text \<open>The file stored under a name in the directory of a status, if any.\<close>

definition lookup :: "fsys \<Rightarrow> status \<Rightarrow> string \<Rightarrow> entry option" where
  "lookup fs d name =
     (case fs_dir fs d of None \<Rightarrow> None | Some dir \<Rightarrow> map_of (entries dir) name)"

fun existsSync :: "fsys \<Rightarrow> path \<Rightarrow> bool" where
  "existsSync fs (DirPath d) = (fs_dir fs d \<noteq> None)"
| "existsSync fs (FilePath d name) = (lookup fs d name \<noteq> None)"

definition readdirSync :: "directory \<Rightarrow> fs_error + string list" where
  "readdirSync dir = (if listable dir then Inr (map fst (entries dir)) else Inl EACCES)"

definition readFileSync :: "fsys \<Rightarrow> status \<Rightarrow> string \<Rightarrow> fs_error + string" where
  "readFileSync fs d name =
     (case lookup fs d name of
        None \<Rightarrow> Inl ENOENT
      | Some (File r c) \<Rightarrow> if r then Inr c else Inl EACCES)"

text \<open>
  \<^verbatim>\<open>fs.renameSync(oldPath, newPath)\<close> between files of the two directories, as Node
  documents it: the call is one atomic step; it fails, changing nothing, when the old
  path or the directory of the new path is missing, or when one of the two directories
  refuses the change; a file already at the new path is overwritten.
\<close>

definition renameSync :: "fsys \<Rightarrow> status \<times> string \<Rightarrow> status \<times> string \<Rightarrow> fs_error + fsys" where
  "renameSync fs old new =
     (case fs_dir fs (fst old) of
        None \<Rightarrow> Inl ENOENT
      | Some src \<Rightarrow>
          (case map_of (entries src) (snd old) of
             None \<Rightarrow> Inl ENOENT
           | Some e \<Rightarrow>
               (let fs1 = set_dir fs (fst old)
                            (src\<lparr>entries := AList.delete (snd old) (entries src)\<rparr>)
                in case fs_dir fs1 (fst new) of
                     None \<Rightarrow> Inl ENOENT
                   | Some dst \<Rightarrow>
                       if \<not> writable src \<or> \<not> writable dst then Inl EACCES
                       else Inr (set_dir fs1 (fst new)
                                   (dst\<lparr>entries := AList.update (snd new) e (entries dst)\<rparr>)))))"

text \<open>\<^verbatim>\<open>e.message\<close> of the error that \<^verbatim>\<open>renameSync\<close> throws.\<close>

fun message :: "fs_error \<Rightarrow> string" where
  "message ENOENT = ''ENOENT: no such file or directory, rename''"
| "message EACCES = ''EACCES: permission denied, rename''"

subsection \<open>readTodos\<close>

record todo =
  idf :: string
  status :: status
  title :: string
  area :: string
  created :: string
  files :: "string list"
  path :: path

text \<open>\<^verbatim>\<open>(v || '').toString()\<close> for a property \<open>v\<close> of the front matter.\<close>

fun to_string :: "fmvalue option \<Rightarrow> string" where
  "to_string None = []"
| "to_string (Some (Scalar s)) = s"
| "to_string (Some (ListV xs)) = join_comma xs"

text \<open>\<^verbatim>\<open>a || b\<close> on strings: the empty string is the only falsy one.\<close>

definition or_else :: "string \<Rightarrow> string \<Rightarrow> string" where
  "or_else a b = (if a = [] then b else a)"

text \<open>\<^verbatim>\<open>file.replace(/\.md$/, '')\<close>\<close>

definition strip_md :: "string \<Rightarrow> string" where
  "strip_md file = (if endsWith file ''.md'' then take (length file - 3) file else file)"

text \<open>The object that the callback of \<^verbatim>\<open>files.map\<close> builds from the text \<open>md\<close> it read.\<close>

definition make_todo :: "status \<Rightarrow> status \<Rightarrow> string \<Rightarrow> string \<Rightarrow> todo" where
  "make_todo dir st file md =
     (let frontmatter = fst (parseFrontmatter md) in
      \<lparr> idf = file,
        status = st,
        title = or_else (trim (to_string (frontmatter ''title''))) (strip_md file),
        area = or_else (trim (to_string (frontmatter ''area''))) ''general'',
        created = or_else (trim (to_string (frontmatter ''created''))) [],
        files = (case frontmatter ''files'' of Some (ListV xs) \<Rightarrow> xs | _ \<Rightarrow> []),
        path = FilePath dir file \<rparr>)"

text \<open>The callback itself: a read that throws leaves \<open>md\<close> empty.\<close>

definition read_todo :: "fsys \<Rightarrow> status \<Rightarrow> status \<Rightarrow> string \<Rightarrow> todo" where
  "read_todo fs dir st file =
     (let md = (case readFileSync fs dir file of Inl e \<Rightarrow> [] | Inr text \<Rightarrow> text)
      in make_todo dir st file md)"

text \<open>
  \<^verbatim>\<open>readTodos(dir, status)\<close>: the items, or the error that \<^verbatim>\<open>readdirSync\<close> threw,
  which nothing in \<^verbatim>\<open>readTodos\<close> catches; and the calls into \<^verbatim>\<open>fs\<close> it made.
\<close>

definition readTodos :: "fsys \<Rightarrow> status \<Rightarrow> status \<Rightarrow> (fs_error + todo list) \<times> fs_op list" where
  "readTodos fs dir st =
     (case fs_dir fs dir of
        None \<Rightarrow> (Inr [], [ExistsSync (DirPath dir)])
      | Some d \<Rightarrow>
          (case readdirSync d of
             Inl e \<Rightarrow> (Inl e, [ExistsSync (DirPath dir), ReaddirSync (DirPath dir)])
           | Inr names \<Rightarrow>
               (let files = sort (filter (\<lambda>f. endsWith f ''.md'') names)
                in (Inr (map (read_todo fs dir st) files),
                    ExistsSync (DirPath dir) # ReaddirSync (DirPath dir)
                      # map (\<lambda>f. ReadFileSync (FilePath dir f)) files))))"

subsection \<open>The request handler\<close>

text \<open>
  A request is its method, the path of its URL, and what became of its body: reading it
  failed with a message, or it was not JSON, or it was a JSON object whose \<^verbatim>\<open>id\<close> and
  \<^verbatim>\<open>to\<close> are strings, when present.  An empty body is read as the object \<^verbatim>\<open>{}\<close>.
\<close>

datatype jfield = Absent | Str string

datatype body = ReadError string | NotJson | JsonObject (id_field: jfield) (to_field: jfield)

record request =
  req_method :: string
  req_pathname :: string
  req_body :: body

datatype payload = Ok | Error string | Todos "todo list" "todo list"

text \<open>What the handler does with a request: it sends a response, or an error leaves it
  uncaught and no response is sent.\<close>

datatype response = Json nat payload | Html nat | Text nat string | Thrown fs_error

text \<open>\<^verbatim>\<open>String(v || '')\<close>\<close>

fun String_or_empty :: "jfield \<Rightarrow> string" where
  "String_or_empty Absent = []"
| "String_or_empty (Str s) = s"

text \<open>The branch for \<^verbatim>\<open>POST /api/move\<close>: the response, the file system afterwards, and
  the calls into \<^verbatim>\<open>fs\<close>.\<close>

definition move :: "fsys \<Rightarrow> body \<Rightarrow> response \<times> fsys \<times> fs_op list" where
  "move fs b =
     (case b of
        ReadError msg \<Rightarrow> (Json 400 (Error (or_else msg ''Invalid body'')), fs, [])
      | NotJson \<Rightarrow> (Json 400 (Error ''Body must be JSON''), fs, [])
      | JsonObject i t \<Rightarrow>
          (let ident = safeBasename (String_or_empty i);
               to = String_or_empty t
           in case ident of
                None \<Rightarrow> (Json 400 (Error ''Invalid id''), fs, [])
              | Some name \<Rightarrow>
                  if to \<noteq> ''pending'' \<and> to \<noteq> ''done''
                  then (Json 400 (Error ''Invalid destination''), fs, [])
                  else
                    (let fromDir = (if to = ''pending'' then Done else Pending);
                         toDir = (if to = ''pending'' then Pending else Done);
                         fromPath = FilePath fromDir name;
                         toPath = FilePath toDir name
                     in if \<not> existsSync fs fromPath
                        then (Json 404 (Error (''Not found: '' @ name)), fs, [ExistsSync fromPath])
                        else case renameSync fs (fromDir, name) (toDir, name) of
                               Inl e \<Rightarrow>
                                 (Json 500 (Error (or_else (message e) ''Move failed'')), fs,
                                  [ExistsSync fromPath, RenameSync fromPath toPath])
                             | Inr fs' \<Rightarrow>
                                 (Json 200 Ok, fs',
                                  [ExistsSync fromPath, RenameSync fromPath toPath]))))"

definition handle :: "fsys \<Rightarrow> request \<Rightarrow> response \<times> fsys \<times> fs_op list" where
  "handle fs req =
     (if req_method req = ''GET'' \<and> req_pathname req = ''/'' then (Html 200, fs, [])
      else if req_method req = ''GET'' \<and> req_pathname req = ''/api/todos'' then
        (let (pending, ops1) = readTodos fs Pending Pending in
         case pending of
           Inl e \<Rightarrow> (Thrown e, fs, ops1)
         | Inr pending \<Rightarrow>
             (let (done, ops2) = readTodos fs Done Done in
              case done of
                Inl e \<Rightarrow> (Thrown e, fs, ops1 @ ops2)
              | Inr done \<Rightarrow> (Json 200 (Todos pending done), fs, ops1 @ ops2)))
      else if req_method req = ''POST'' \<and> req_pathname req = ''/api/move'' then move fs (req_body req)
      else (Text 404 (''Not found'' @ [LF]), fs, []))"

text \<open>The two requests of the API.\<close>

definition get_todos :: request where
  "get_todos = \<lparr> req_method = ''GET'', req_pathname = ''/api/todos'', req_body = JsonObject Absent Absent \<rparr>"

definition post_move :: "string \<Rightarrow> string \<Rightarrow> request" where
  "post_move i to =
     \<lparr> req_method = ''POST'', req_pathname = ''/api/move'', req_body = JsonObject (Str i) (Str to) \<rparr>"

subsection \<open>Vocabulary for the properties\<close>

text \<open>The label of a status on the wire, the opposite status, and the three parts of
  what the handler returns.\<close>

fun label :: "status \<Rightarrow> string" where
  "label Pending = ''pending''"
| "label Done = ''done''"

fun other :: "status \<Rightarrow> status" where
  "other Pending = Done"
| "other Done = Pending"

definition reply :: "fsys \<Rightarrow> request \<Rightarrow> response" where
  "reply fs req = fst (handle fs req)"

definition after :: "fsys \<Rightarrow> request \<Rightarrow> fsys" where
  "after fs req = fst (snd (handle fs req))"

definition calls :: "fsys \<Rightarrow> request \<Rightarrow> fs_op list" where
  "calls fs req = snd (snd (handle fs req))"

subsection \<open>Sample boards\<close>

text \<open>The board of the scenario in the specification: one pending card, nothing done.\<close>

definition board_fs :: fsys where
  "board_fs =
     \<lparr> pendingDir = Some \<lparr> listable = True, writable = True,
          entries = [(''a1.md'', File True (''---'' @ [LF] @ ''title: Fix bug'' @ [LF] @ ''---'' @ [LF]))] \<rparr>,
       doneDir = Some \<lparr> listable = True, writable = True, entries = [] \<rparr> \<rparr>"

text \<open>A board whose done directory refuses changes.\<close>

definition locked_fs :: fsys where
  "locked_fs =
     \<lparr> pendingDir = Some \<lparr> listable = True, writable = True, entries = [(''a1.md'', File True ''text'')] \<rparr>,
       doneDir = Some \<lparr> listable = True, writable = False, entries = [] \<rparr> \<rparr>"

text \<open>A board with a file of the same name in both directories.\<close>

definition clash_fs :: fsys where
  "clash_fs =
     \<lparr> pendingDir = Some \<lparr> listable = True, writable = True, entries = [(''a.md'', File True ''new'')] \<rparr>,
       doneDir = Some \<lparr> listable = True, writable = True, entries = [(''a.md'', File True ''old'')] \<rparr> \<rparr>"

text \<open>A board with two files whose names end in \<^verbatim>\<open>.md\<close> and do not match the pattern.\<close>

definition odd_fs :: fsys where
  "odd_fs =
     \<lparr> pendingDir = Some \<lparr> listable = True, writable = True,
          entries = [(''my todo.md'', File True []), (''.md'', File False [])] \<rparr>,
       doneDir = Some \<lparr> listable = True, writable = True, entries = [] \<rparr> \<rparr>"

text \<open>A board whose pending directory is missing.\<close>

definition gone_fs :: fsys where
  "gone_fs = \<lparr> pendingDir = None, doneDir = Some \<lparr> listable = True, writable = True, entries = [] \<rparr> \<rparr>"

text \<open>A board whose pending directory exists and cannot be listed.\<close>

definition unlisted_fs :: fsys where
  "unlisted_fs =
     \<lparr> pendingDir = Some \<lparr> listable = False, writable = True,
          entries = [(''a1.md'', File True ''text'')] \<rparr>,
       doneDir = Some \<lparr> listable = True, writable = True, entries = [] \<rparr> \<rparr>"

text \<open>A board with an unreadable file, a file that is no todo, and a file whose front
  matter is never closed.\<close>

definition mixed_fs :: fsys where
  "mixed_fs =
     \<lparr> pendingDir = Some \<lparr> listable = True, writable = True,
          entries = [(''b.md'', File False ''---''),
                     (''notes.txt'', File True ''text''),
                     (''a.md'', File True (''---'' @ [LF] @ ''title: never closed''))] \<rparr>,
       doneDir = Some \<lparr> listable = True, writable = True, entries = [] \<rparr> \<rparr>"

text \<open>A front matter whose title is given as a list.\<close>

definition listy_md :: string where
  "listy_md = ''---'' @ [LF] @ ''title:'' @ [LF] @ ''- x'' @ [LF] @ ''---''"

text \<open>A front matter with a title without value, a scalar area followed by a stray item,
  and a list of files.\<close>

definition full_md :: string where
  "full_md = ''---'' @ [LF] @ ''title:'' @ [LF] @ ''area: ui'' @ [LF] @ ''- stray'' @ [LF]
             @ ''files:'' @ [LF] @ ''  - a.js'' @ [LF] @ ''- b.js'' @ [LF] @ ''---'' @ [LF] @ ''body''"

section \<open>Properties\<close>

subsection \<open>Validation of the id\<close>

lemma basename_no_slash: "CHR ''/'' \<notin> set (basename p)"
  by (auto simp: basename_def dest: set_takeWhileD)

lemma basename_id: "CHR ''/'' \<notin> set p \<Longrightarrow> basename p = p"
proof -
  assume a: "CHR ''/'' \<notin> set p"
  have d: "dropWhile (\<lambda>c. c = CHR ''/'') (rev p) = rev p"
    using a by (cases "rev p") auto
  have t: "takeWhile (\<lambda>c. c \<noteq> CHR ''/'') (rev p) = rev p"
    using a by auto
  show ?thesis by (simp add: basename_def d t)
qed

lemma basename_eq_iff: "basename p = p \<longleftrightarrow> CHR ''/'' \<notin> set p"
  using basename_no_slash [of p] basename_id [of p] by auto

lemma slash_not_name_char: "\<not> is_name_char (CHR ''/'')"
  by (simp add: is_name_char_def is_alnum_def)

lemma name_pattern_iff:
  "name_pattern s \<longleftrightarrow> (\<exists>pre. pre \<noteq> [] \<and> list_all is_name_char pre \<and> s = pre @ ''.md'')"
proof
  assume np: "name_pattern s"
  let ?pre = "take (length s - 3) s"
  from np have "drop (length s - 3) s = ''.md''" and "3 < length s"
    and "list_all is_name_char ?pre"
    by (simp_all add: name_pattern_def endsWith_def numeral_3_eq_3)
  moreover have "s = ?pre @ drop (length s - 3) s" by simp
  ultimately have "?pre \<noteq> [] \<and> list_all is_name_char ?pre \<and> s = ?pre @ ''.md''"
    by auto
  then show "\<exists>pre. pre \<noteq> [] \<and> list_all is_name_char pre \<and> s = pre @ ''.md''" by blast
next
  assume "\<exists>pre. pre \<noteq> [] \<and> list_all is_name_char pre \<and> s = pre @ ''.md''"
  then obtain pre where "pre \<noteq> []" "list_all is_name_char pre" "s = pre @ ''.md''" by blast
  then show "name_pattern s"
    by (cases pre) (simp_all add: name_pattern_def endsWith_def numeral_3_eq_3)
qed

lemma name_pattern_no_slash: "name_pattern s \<Longrightarrow> CHR ''/'' \<notin> set s"
proof -
  assume "name_pattern s"
  then obtain pre where p: "list_all is_name_char pre" "s = pre @ ''.md''"
    unfolding name_pattern_iff by blast
  have "CHR ''/'' \<notin> set pre"
    using p(1) slash_not_name_char by (auto simp: list_all_iff)
  then show ?thesis using p(2) by simp
qed

lemma safeBasename_Some: "name_pattern n \<Longrightarrow> safeBasename n = Some n"
  by (simp add: safeBasename_def basename_id name_pattern_no_slash)

lemma safeBasename_None: "CHR ''/'' \<in> set n \<or> basename n \<noteq> n \<or> \<not> name_pattern n \<Longrightarrow> safeBasename n = None"
proof (cases "basename n = n")
  case True
  assume "CHR ''/'' \<in> set n \<or> basename n \<noteq> n \<or> \<not> name_pattern n"
  with True have "\<not> name_pattern n" by (simp add: basename_eq_iff)
  with True show ?thesis by (simp add: safeBasename_def)
next
  case False
  then show ?thesis by (simp add: safeBasename_def)
qed

lemma handle_post_move: "handle fs (post_move i to) = move fs (JsonObject (Str i) (Str to))"
  by (simp add: handle_def post_move_def)

lemma label_cases: "label s \<noteq> ''pending'' \<longleftrightarrow> s = Done" "label s \<noteq> ''done'' \<longleftrightarrow> s = Pending"
  by (cases s; simp)+

lemma move_valid:
  "name_pattern i \<Longrightarrow>
   move fs (JsonObject (Str i) (Str (label (other s)))) =
     (if lookup fs s i = None
      then (Json 404 (Error (''Not found: '' @ i)), fs, [ExistsSync (FilePath s i)])
      else case renameSync fs (s, i) (other s, i) of
             Inl e \<Rightarrow> (Json 500 (Error (or_else (message e) ''Move failed'')), fs,
                       [ExistsSync (FilePath s i), RenameSync (FilePath s i) (FilePath (other s) i)])
           | Inr fs' \<Rightarrow> (Json 200 Ok, fs',
                       [ExistsSync (FilePath s i), RenameSync (FilePath s i) (FilePath (other s) i)]))"
  by (cases s) (auto simp: move_def safeBasename_Some Let_def split: sum.split)

lemma message_nonempty: "message e \<noteq> []"
  by (cases e) simp_all

lemma renameSync_Inr:
  assumes "renameSync fs (s, i) (other s, i) = Inr fs'" "lookup fs s i = Some e"
  shows "lookup fs' (other s) i = Some e" "lookup fs' s i = None"
        "\<And>n. n \<noteq> i \<Longrightarrow> lookup fs' s n = lookup fs s n"
        "\<And>n. n \<noteq> i \<Longrightarrow> lookup fs' (other s) n = lookup fs (other s) n"
  using assms
  by (cases s; auto simp: renameSync_def lookup_def Let_def update_conv' delete_conv' split: option.splits if_splits)+

lemma other_other: "other (other s) = s"
  by (cases s) simp_all


subsection \<open>Moving a card\<close>




text \<open>
  C2.  For every id that contains a path separator (so that its base name differs from
  it), or that does not end in \<^verbatim>\<open>.md\<close>, or that does not match the name pattern,
  \<^verbatim>\<open>POST /api/move\<close> answers 400 with the error \<^verbatim>\<open>Invalid id\<close>, whatever the
  destination; the handler made no call into the file system, which is as it was.
\<close>

theorem invalid_id_rejected:
  assumes "CHR ''/'' \<in> set i \<or> basename i \<noteq> i \<or> \<not> endsWith i ''.md'' \<or> \<not> name_pattern i"
  shows "handle fs (post_move i to) = (Json 400 (Error ''Invalid id''), fs, [])"
proof -
  from assms have "CHR ''/'' \<in> set i \<or> basename i \<noteq> i \<or> \<not> name_pattern i"
    by (auto simp: name_pattern_def)
  then have "safeBasename i = None" by (rule safeBasename_None)
  then show ?thesis by (simp add: handle_post_move move_def)
qed

theorem invalid_id_rejected_witness:
  "CHR ''/'' \<in> set ''../../etc/passwd''
   \<and> handle board_fs (post_move ''../../etc/passwd'' ''done'')
       = (Json 400 (Error ''Invalid id''), board_fs, [])"
  using invalid_id_rejected [of "''../../etc/passwd''" board_fs "''done''"] by simp

text \<open>
  C3.  For every move request with a destination \<^verbatim>\<open>pending\<close> or \<^verbatim>\<open>done\<close> whose id
  matches the name pattern and is not in the directory of the other status, the
  handler answers 404; it only asked whether the source exists, and the file system,
  so the content of both directories, is as it was.
\<close>

theorem absent_source_not_found:
  assumes "name_pattern i" and "lookup fs (other s) i = None"
  shows "handle fs (post_move i (label s)) =
           (Json 404 (Error (''Not found: '' @ i)), fs, [ExistsSync (FilePath (other s) i)])"
  using move_valid [OF assms(1), of fs "other s"] assms(2)
  by (simp add: handle_post_move other_other)

theorem absent_source_not_found_witness:
  "name_pattern ''missing.md'' \<and> lookup board_fs (other Pending) ''missing.md'' = None
   \<and> handle board_fs (post_move ''missing.md'' ''pending'') =
       (Json 404 (Error ''Not found: missing.md''), board_fs,
        [ExistsSync (FilePath Done ''missing.md'')])"
  using absent_source_not_found [of "''missing.md''" board_fs Pending]
  by (simp add: board_fs_def lookup_def name_pattern_def endsWith_def is_name_char_def is_alnum_def)

text \<open>
  C8, as amended.  For every move request whose id matches the name pattern and whose
  source file exists, the handler asks once whether the source exists and then calls
  \<^verbatim>\<open>renameSync\<close> once, from the source directory to the other one under the same
  file name, and makes no other call into the file system.  When the rename fails (a
  directory is missing, a directory refuses the change) the handler answers 500 with the
  message of the error, which is not empty, and the file system is as it was; when the
  rename succeeds the handler answers 200.  In both cases the handler returns a
  response.
\<close>

theorem move_is_one_rename:
  assumes "name_pattern i" and "lookup fs s i = Some e"
  shows "calls fs (post_move i (label (other s))) =
           [ExistsSync (FilePath s i), RenameSync (FilePath s i) (FilePath (other s) i)]
       \<and> (case renameSync fs (s, i) (other s, i) of
            Inl err \<Rightarrow>
              reply fs (post_move i (label (other s))) = Json 500 (Error (message err))
              \<and> message err \<noteq> []
              \<and> after fs (post_move i (label (other s))) = fs
          | Inr fs' \<Rightarrow>
              reply fs (post_move i (label (other s))) = Json 200 Ok
              \<and> after fs (post_move i (label (other s))) = fs')"
proof -
  have h: "handle fs (post_move i (label (other s))) =
     (case renameSync fs (s, i) (other s, i) of
             Inl e \<Rightarrow> (Json 500 (Error (or_else (message e) ''Move failed'')), fs,
                       [ExistsSync (FilePath s i), RenameSync (FilePath s i) (FilePath (other s) i)])
           | Inr fs' \<Rightarrow> (Json 200 Ok, fs',
                       [ExistsSync (FilePath s i), RenameSync (FilePath s i) (FilePath (other s) i)]))"
    using assms(2) by (simp add: handle_post_move move_valid [OF assms(1)])
  have c: "calls fs (post_move i (label (other s))) =
           [ExistsSync (FilePath s i), RenameSync (FilePath s i) (FilePath (other s) i)]"
    by (simp add: calls_def h split: sum.split)
  have r: "(case renameSync fs (s, i) (other s, i) of
            Inl err \<Rightarrow>
              reply fs (post_move i (label (other s))) = Json 500 (Error (message err))
              \<and> message err \<noteq> []
              \<and> after fs (post_move i (label (other s))) = fs
          | Inr fs' \<Rightarrow>
              reply fs (post_move i (label (other s))) = Json 200 Ok
              \<and> after fs (post_move i (label (other s))) = fs')"
    by (simp add: reply_def after_def h or_else_def message_nonempty split: sum.split)
  from c r show ?thesis by blast
qed

theorem move_is_one_rename_witness:
  "name_pattern ''a1.md'' \<and> lookup locked_fs Pending ''a1.md'' = Some (File True ''text'')
   \<and> calls locked_fs (post_move ''a1.md'' ''done'') =
       [ExistsSync (FilePath Pending ''a1.md''),
        RenameSync (FilePath Pending ''a1.md'') (FilePath Done ''a1.md'')]
   \<and> renameSync locked_fs (Pending, ''a1.md'') (Done, ''a1.md'') = Inl EACCES
   \<and> reply locked_fs (post_move ''a1.md'' ''done'') = Json 500 (Error (message EACCES))
   \<and> after locked_fs (post_move ''a1.md'' ''done'') = locked_fs"
proof -
  have n: "name_pattern ''a1.md''"
    by (simp add: name_pattern_def endsWith_def is_name_char_def is_alnum_def)
  have l: "lookup locked_fs Pending ''a1.md'' = Some (File True ''text'')"
    by (simp add: lookup_def locked_fs_def)
  have r: "renameSync locked_fs (Pending, ''a1.md'') (Done, ''a1.md'') = Inl EACCES"
    by (simp add: renameSync_def locked_fs_def)
  from move_is_one_rename [OF n l] n l r show ?thesis by simp
qed

text \<open>
  C8 as stated fails on \<^const>\<open>clash_fs\<close>: a file of the same name in the destination
  directory does not make the rename fail; the request answers 200 and the file that
  was in the destination is replaced.
\<close>

theorem collision_overwrites_counterexample:
  "name_pattern ''a.md''
   \<and> lookup clash_fs Pending ''a.md'' = Some (File True ''new'')
   \<and> lookup clash_fs Done ''a.md'' = Some (File True ''old'')
   \<and> reply clash_fs (post_move ''a.md'' ''done'') = Json 200 Ok
   \<and> lookup (after clash_fs (post_move ''a.md'' ''done'')) Done ''a.md'' = Some (File True ''new'')"
  by code_simp

lemma move_ok_rename:
  assumes "name_pattern i"
      and "handle fs (post_move i (label (other s))) = (Json 200 Ok, fs', ops)"
  shows "lookup fs s i \<noteq> None \<and> renameSync fs (s, i) (other s, i) = Inr fs'"
  using assms(2)
  by (auto simp: handle_post_move move_valid [OF assms(1)] split: if_splits sum.splits)

text \<open>
  C6, as amended.  For every id that matches the name pattern, whose file is in the
  pending directory and for which the done directory holds no file of that name: after
  a successful move to done the file, with its content, is in the done directory and
  not in the pending one, and after a successful move back to pending every name in
  either directory has the file and the content it had at the start.
\<close>

theorem move_roundtrip:
  assumes "name_pattern i"
      and "lookup fs Pending i = Some e" and "lookup fs Done i = None"
      and "handle fs (post_move i ''done'') = (Json 200 Ok, fs1, ops1)"
      and "handle fs1 (post_move i ''pending'') = (Json 200 Ok, fs2, ops2)"
  shows "lookup fs1 Done i = Some e \<and> lookup fs1 Pending i = None \<and> lookup fs2 = lookup fs"
proof -
  from move_ok_rename [OF assms(1), of fs Pending fs1 ops1] assms(4)
  have r1: "renameSync fs (Pending, i) (other Pending, i) = Inr fs1" by simp
  note a = renameSync_Inr [OF r1 assms(2)]
  from move_ok_rename [OF assms(1), of fs1 Done fs2 ops2] assms(5)
  have r2: "renameSync fs1 (Done, i) (other Done, i) = Inr fs2" by simp
  from a(1) have d1: "lookup fs1 Done i = Some e" by simp
  note b = renameSync_Inr [OF r2 d1]
  have "lookup fs2 d n = lookup fs d n" for d n
  proof (cases "n = i")
    case True
    with a b assms(2,3) show ?thesis by (cases d) simp_all
  next
    case False
    with a(3,4) [of n] b(3,4) [of n] show ?thesis by (cases d) simp_all
  qed
  then have "lookup fs2 = lookup fs" by (intro ext)
  with a(1,2) show ?thesis by simp
qed

theorem move_roundtrip_witness:
  "name_pattern ''a1.md''
   \<and> lookup board_fs Done ''a1.md'' = None
   \<and> lookup (after board_fs (post_move ''a1.md'' ''done'')) Done ''a1.md''
       = lookup board_fs Pending ''a1.md''
   \<and> lookup (after (after board_fs (post_move ''a1.md'' ''done'')) (post_move ''a1.md'' ''pending''))
       = lookup board_fs"
proof -
  let ?e = "File True (''---'' @ [LF] @ ''title: Fix bug'' @ [LF] @ ''---'' @ [LF])"
  let ?fs1 = "after board_fs (post_move ''a1.md'' ''done'')"
  let ?fs2 = "after ?fs1 (post_move ''a1.md'' ''pending'')"
  have n: "name_pattern ''a1.md''"
    by (simp add: name_pattern_def endsWith_def is_name_char_def is_alnum_def)
  have p: "lookup board_fs Pending ''a1.md'' = Some ?e" by (simp add: lookup_def board_fs_def)
  have d: "lookup board_fs Done ''a1.md'' = None" by (simp add: lookup_def board_fs_def)
  have h1: "handle board_fs (post_move ''a1.md'' ''done'')
              = (Json 200 Ok, ?fs1, calls board_fs (post_move ''a1.md'' ''done''))"
    by code_simp
  have h2: "handle ?fs1 (post_move ''a1.md'' ''pending'')
              = (Json 200 Ok, ?fs2, calls ?fs1 (post_move ''a1.md'' ''pending''))"
    by code_simp
  from move_roundtrip [OF n p d h1 h2] n p d show ?thesis by simp
qed

text \<open>
  C6 as stated fails on \<^const>\<open>clash_fs\<close>: both moves succeed, and the file that the
  done directory held under the same name is gone afterwards.
\<close>

theorem roundtrip_loses_file_counterexample:
  "name_pattern ''a.md''
   \<and> lookup clash_fs Pending ''a.md'' = Some (File True ''new'')
   \<and> reply clash_fs (post_move ''a.md'' ''done'') = Json 200 Ok
   \<and> reply (after clash_fs (post_move ''a.md'' ''done'')) (post_move ''a.md'' ''pending'') = Json 200 Ok
   \<and> lookup clash_fs Done ''a.md'' = Some (File True ''old'')
   \<and> lookup (after (after clash_fs (post_move ''a.md'' ''done'')) (post_move ''a.md'' ''pending''))
        Done ''a.md'' = None"
  by code_simp

subsection \<open>Listing and moving disagree on names\<close>

lemma not_pattern_spaced: "\<not> name_pattern ''my todo.md''"
  by (simp add: name_pattern_def endsWith_def is_name_char_def is_alnum_def)

lemma not_pattern_bare: "\<not> name_pattern ''.md''"
  by (simp add: name_pattern_def)

text \<open>
  C9.  The names \<^verbatim>\<open>.md\<close> and \<^verbatim>\<open>my todo.md\<close> end in \<^verbatim>\<open>.md\<close>, and a directory
  that holds them lists both as items; yet a move request for either id is answered 400
  \<^verbatim>\<open>Invalid id\<close> on every file system and for every destination, without a call into
  the file system.
\<close>

theorem listed_but_never_movable:
  "map_sum id (map idf) (fst (readTodos odd_fs Pending Pending)) = Inr [''.md'', ''my todo.md'']
   \<and> (\<forall>fs to. handle fs (post_move ''.md'' to) = (Json 400 (Error ''Invalid id''), fs, []))
   \<and> (\<forall>fs to. handle fs (post_move ''my todo.md'' to) = (Json 400 (Error ''Invalid id''), fs, []))
   \<and> endsWith ''my todo.md'' ''.md'' \<and> endsWith ''.md'' ''.md''"
proof -
  have l: "map_sum id (map idf) (fst (readTodos odd_fs Pending Pending))
             = Inr [''.md'', ''my todo.md'']"
    by code_simp
  have a: "handle fs (post_move ''.md'' to) = (Json 400 (Error ''Invalid id''), fs, [])" for fs to
    by (simp add: handle_post_move move_def safeBasename_None not_pattern_bare)
  have b: "handle fs (post_move ''my todo.md'' to) = (Json 400 (Error ''Invalid id''), fs, [])" for fs to
    by (simp add: handle_post_move move_def safeBasename_None not_pattern_spaced)
  have e: "endsWith ''my todo.md'' ''.md'' \<and> endsWith ''.md'' ''.md''"
    by (simp add: endsWith_def)
  from l a b e show ?thesis by blast
qed

theorem listed_but_never_movable_witness:
  "reply odd_fs get_todos =
     Json 200 (Todos
       [\<lparr> idf = ''.md'', status = Pending, title = [], area = ''general'', created = [],
           files = [], path = FilePath Pending ''.md'' \<rparr>,
        \<lparr> idf = ''my todo.md'', status = Pending, title = ''my todo'', area = ''general'', created = [],
           files = [], path = FilePath Pending ''my todo.md'' \<rparr>] [])
   \<and> reply odd_fs (post_move ''.md'' ''done'') = Json 400 (Error ''Invalid id'')
   \<and> reply odd_fs (post_move ''my todo.md'' ''done'') = Json 400 (Error ''Invalid id'')"
proof -
  have g: "reply odd_fs get_todos =
     Json 200 (Todos
       [\<lparr> idf = ''.md'', status = Pending, title = [], area = ''general'', created = [],
           files = [], path = FilePath Pending ''.md'' \<rparr>,
        \<lparr> idf = ''my todo.md'', status = Pending, title = ''my todo'', area = ''general'', created = [],
           files = [], path = FilePath Pending ''my todo.md'' \<rparr>] [])"
    by code_simp
  from listed_but_never_movable g show ?thesis by (simp add: reply_def)
qed

subsection \<open>Listing\<close>

lemma idf_read_todo: "idf (read_todo fs dir st f) = f"
  by (simp add: read_todo_def make_todo_def Let_def)

lemma status_read_todo: "status (read_todo fs dir st f) = st"
  by (simp add: read_todo_def make_todo_def Let_def)

lemma path_read_todo: "path (read_todo fs dir st f) = FilePath dir f"
  by (simp add: read_todo_def make_todo_def Let_def)

lemma readTodos_listed:
  "fs_dir fs dir = Some d \<Longrightarrow> readdirSync d = Inr names \<Longrightarrow>
   fst (readTodos fs dir st) =
     Inr (map (read_todo fs dir st) (sort (filter (\<lambda>f. endsWith f ''.md'') names)))"
  by (simp add: readTodos_def Let_def)

lemma readTodos_status:
  "fst (readTodos fs dir st) = Inr items \<Longrightarrow> list_all (\<lambda>t. status t = st) items"
  by (auto simp: readTodos_def Let_def list_all_iff status_read_todo
           split: option.splits sum.splits)

text \<open>
  C4, as amended.  For every directory and status label given to \<^const>\<open>readTodos\<close>:
  when the directory does not exist the result is the empty list, and no error; when
  it exists and \<^verbatim>\<open>readdirSync\<close> reports its names, the result is a list of items whose
  ids are sorted and are, counted with multiplicity, the reported names that end in
  \<^verbatim>\<open>.md\<close>, so one item for each such entry, and each item carries the status label and
  the path of its file.
\<close>

theorem readTodos_listing:
  "(fs_dir fs dir = None \<longrightarrow> readTodos fs dir st = (Inr [], [ExistsSync (DirPath dir)]))
   \<and> (fs_dir fs dir = Some d \<and> readdirSync d = Inr names \<longrightarrow>
        (\<exists>items. fst (readTodos fs dir st) = Inr items
           \<and> sorted (map idf items)
           \<and> mset (map idf items) = filter_mset (\<lambda>f. endsWith f ''.md'') (mset names)
           \<and> list_all (\<lambda>t. status t = st \<and> path t = FilePath dir (idf t)) items))"
proof -
  let ?files = "sort (filter (\<lambda>f. endsWith f ''.md'') names)"
  let ?items = "map (read_todo fs dir st) ?files"
  have a: "fs_dir fs dir = None \<Longrightarrow> readTodos fs dir st = (Inr [], [ExistsSync (DirPath dir)])"
    by (simp add: readTodos_def)
  have ids: "map idf ?items = ?files"
    by (simp add: idf_read_todo comp_def)
  have b: "sorted (map idf ?items)"
    by (simp only: ids sorted_sort)
  have c: "mset (map idf ?items) = filter_mset (\<lambda>f. endsWith f ''.md'') (mset names)"
    by (simp only: ids mset_sort mset_filter)
  have e: "list_all (\<lambda>t. status t = st \<and> path t = FilePath dir (idf t)) ?items"
    by (simp add: list_all_iff idf_read_todo status_read_todo path_read_todo)
  have "\<exists>items. fst (readTodos fs dir st) = Inr items
           \<and> sorted (map idf items)
           \<and> mset (map idf items) = filter_mset (\<lambda>f. endsWith f ''.md'') (mset names)
           \<and> list_all (\<lambda>t. status t = st \<and> path t = FilePath dir (idf t)) items"
    if "fs_dir fs dir = Some d" and "readdirSync d = Inr names"
    using readTodos_listed [OF that, of st] b c e by blast
  with a show ?thesis by blast
qed

theorem readTodos_listing_witness:
  "readTodos gone_fs Pending Pending = (Inr [], [ExistsSync (DirPath Pending)])
   \<and> readdirSync \<lparr> listable = True, writable = True,
          entries = [(''b.md'', File False ''---''),
                     (''notes.txt'', File True ''text''),
                     (''a.md'', File True (''---'' @ [LF] @ ''title: never closed''))] \<rparr>
       = Inr [''b.md'', ''notes.txt'', ''a.md'']
   \<and> map_sum id (map idf) (fst (readTodos mixed_fs Pending Done)) = Inr [''a.md'', ''b.md'']
   \<and> map_sum id (list_all (\<lambda>t. status t = Done \<and> path t = FilePath Pending (idf t)))
         (fst (readTodos mixed_fs Pending Done)) = Inr True"
proof -
  let ?d = "\<lparr> listable = True, writable = True,
          entries = [(''b.md'', File False ''---''),
                     (''notes.txt'', File True ''text''),
                     (''a.md'', File True (''---'' @ [LF] @ ''title: never closed''))] \<rparr>"
  have g: "fs_dir gone_fs Pending = None" by (simp add: gone_fs_def)
  have m: "fs_dir mixed_fs Pending = Some ?d" by (simp add: mixed_fs_def)
  have n: "readdirSync ?d = Inr [''b.md'', ''notes.txt'', ''a.md'']"
    by (simp add: readdirSync_def)
  have i: "map_sum id (map idf) (fst (readTodos mixed_fs Pending Done)) = Inr [''a.md'', ''b.md'']"
    by code_simp
  from readTodos_listing [of gone_fs Pending Pending ?d "[]"] g
  have 1: "readTodos gone_fs Pending Pending = (Inr [], [ExistsSync (DirPath Pending)])" by simp
  from readTodos_listing [of mixed_fs Pending Done ?d "[''b.md'', ''notes.txt'', ''a.md'']"] m n
  obtain items where "fst (readTodos mixed_fs Pending Done) = Inr items"
    and "list_all (\<lambda>t. status t = Done \<and> path t = FilePath Pending (idf t)) items"
    by blast
  then have 2: "map_sum id (list_all (\<lambda>t. status t = Done \<and> path t = FilePath Pending (idf t)))
         (fst (readTodos mixed_fs Pending Done)) = Inr True"
    by simp
  from 1 n i 2 show ?thesis by blast
qed

text \<open>
  C4 as stated fails on \<^const>\<open>unlisted_fs\<close>: the pending directory exists, and
  \<^const>\<open>readTodos\<close> returns no list of items: the error of \<^verbatim>\<open>readdirSync\<close> leaves it,
  and leaves the handler of \<^verbatim>\<open>GET /api/todos\<close> with it.
\<close>

theorem unlistable_directory_counterexample:
  "existsSync unlisted_fs (DirPath Pending)
   \<and> lookup unlisted_fs Pending ''a1.md'' = Some (File True ''text'')
   \<and> readTodos unlisted_fs Pending Pending
       = (Inl EACCES, [ExistsSync (DirPath Pending), ReaddirSync (DirPath Pending)])
   \<and> reply unlisted_fs get_todos = Thrown EACCES"
  by code_simp

lemma readTodos_reads_only: "\<not> list_ex is_write (snd (readTodos fs dir st))"
  by (simp add: readTodos_def Let_def list_ex_iff split: option.split sum.split)

lemma handle_get_todos:
  "handle fs get_todos =
     (case fst (readTodos fs Pending Pending) of
        Inl e \<Rightarrow> (Thrown e, fs, snd (readTodos fs Pending Pending))
      | Inr p \<Rightarrow>
          (case fst (readTodos fs Done Done) of
             Inl e \<Rightarrow> (Thrown e, fs, snd (readTodos fs Pending Pending) @ snd (readTodos fs Done Done))
           | Inr d \<Rightarrow> (Json 200 (Todos p d), fs,
                       snd (readTodos fs Pending Pending) @ snd (readTodos fs Done Done))))"
  by (simp add: handle_def get_todos_def split: prod.split sum.split)

text \<open>
  C7.  \<^verbatim>\<open>GET /api/todos\<close> leaves the file system as it was, so a second request right
  after the first returns the same response, file system and calls; when both
  directories are listed, the response holds the items of \<^const>\<open>readTodos\<close> on the two
  directories, each with the status of its lane; none of the calls into the file system
  is a write.
\<close>

theorem listing_is_pure:
  "after fs get_todos = fs
   \<and> handle (after fs get_todos) get_todos = handle fs get_todos
   \<and> (\<forall>p d. fst (readTodos fs Pending Pending) = Inr p \<and> fst (readTodos fs Done Done) = Inr d
        \<longrightarrow> reply fs get_todos = Json 200 (Todos p d)
          \<and> list_all (\<lambda>t. status t = Pending) p
          \<and> list_all (\<lambda>t. status t = Done) d)
   \<and> \<not> list_ex is_write (calls fs get_todos)"
proof -
  have a: "after fs get_todos = fs"
    by (simp add: after_def handle_get_todos split: sum.split)
  have r: "reply fs get_todos = Json 200 (Todos p d)
          \<and> list_all (\<lambda>t. status t = Pending) p
          \<and> list_all (\<lambda>t. status t = Done) d"
    if "fst (readTodos fs Pending Pending) = Inr p" and "fst (readTodos fs Done Done) = Inr d"
    for p d
    using that readTodos_status [OF that(1)] readTodos_status [OF that(2)]
    by (simp add: reply_def handle_get_todos)
  have w: "\<not> list_ex is_write (calls fs get_todos)"
    using readTodos_reads_only [of fs Pending Pending] readTodos_reads_only [of fs Done Done]
    by (auto simp: calls_def handle_get_todos list_ex_iff split: sum.split)
  from a r w show ?thesis by simp
qed

theorem listing_is_pure_witness:
  "after board_fs get_todos = board_fs
   \<and> handle (after board_fs get_todos) get_todos = handle board_fs get_todos
   \<and> reply board_fs get_todos =
       Json 200 (Todos
         [\<lparr> idf = ''a1.md'', status = Pending, title = ''Fix bug'', area = ''general'',
             created = [], files = [], path = FilePath Pending ''a1.md'' \<rparr>] [])
   \<and> calls board_fs get_todos =
       [ExistsSync (DirPath Pending), ReaddirSync (DirPath Pending),
        ReadFileSync (FilePath Pending ''a1.md''),
        ExistsSync (DirPath Done), ReaddirSync (DirPath Done)]"
proof -
  have p: "fst (readTodos board_fs Pending Pending) =
       Inr [\<lparr> idf = ''a1.md'', status = Pending, title = ''Fix bug'', area = ''general'',
             created = [], files = [], path = FilePath Pending ''a1.md'' \<rparr>]"
    by code_simp
  have d: "fst (readTodos board_fs Done Done) = Inr []"
    by code_simp
  have c: "calls board_fs get_todos =
       [ExistsSync (DirPath Pending), ReaddirSync (DirPath Pending),
        ReadFileSync (FilePath Pending ''a1.md''),
        ExistsSync (DirPath Done), ReaddirSync (DirPath Done)]"
    by code_simp
  from listing_is_pure [of board_fs] p d c show ?thesis by simp
qed

subsection \<open>Files that cannot be read or parsed\<close>

lemma parseFrontmatter_unmarked:
  "\<not> startsWith md ''---'' \<or> indexOf md (LF # ''---'') 3 = None
   \<Longrightarrow> parseFrontmatter md = (Map.empty, md)"
  by (auto simp: parseFrontmatter_def)

lemma make_todo_defaults:
  "fst (parseFrontmatter md) = Map.empty \<Longrightarrow>
   make_todo dir st f md =
     \<lparr> idf = f, status = st, title = strip_md f, area = ''general'', created = [],
       files = [], path = FilePath dir f \<rparr>"
  by (simp add: make_todo_def Let_def trim_def or_else_def)

lemma parseFrontmatter_Nil: "parseFrontmatter [] = (Map.empty, [])"
  by (simp add: parseFrontmatter_def startsWith_def)

lemma read_todo_entry:
  assumes "fs_dir fs dir = Some d" and "map_of (entries d) f = Some e"
  shows "read_todo fs dir st f = make_todo dir st f (if readable e then content e else [])"
  using assms by (cases e) (simp add: read_todo_def readFileSync_def lookup_def)

text \<open>
  C5.  For every file of a directory that is listed whose name ends in \<^verbatim>\<open>.md\<close>,
  whatever its content and whether or not it can be read: the listing is a list of
  items, not an error, and holds an item for the file, with the file name as id; a read
  that fails is treated as empty content; a text that does not start with the marker,
  or whose marker is never closed, has an empty front matter; a missing title falls
  back to the file name without \<^verbatim>\<open>.md\<close> and a missing area to \<^verbatim>\<open>general\<close>; so an
  unreadable file and a file without a closed front matter are listed with exactly the
  default fields.
\<close>

theorem bad_file_still_listed:
  assumes "fs_dir fs dir = Some d" and "listable d"
      and "map_of (entries d) f = Some e" and "endsWith f ''.md''"
  shows "(\<exists>items. fst (readTodos fs dir st) = Inr items \<and> read_todo fs dir st f \<in> set items)
       \<and> idf (read_todo fs dir st f) = f
       \<and> read_todo fs dir st f = make_todo dir st f (if readable e then content e else [])
       \<and> (\<not> startsWith md ''---'' \<or> indexOf md (LF # ''---'') 3 = None
            \<longrightarrow> fst (parseFrontmatter md) = Map.empty)
       \<and> (fst (parseFrontmatter md) ''title'' = None
            \<longrightarrow> title (make_todo dir st f md) = strip_md f)
       \<and> (fst (parseFrontmatter md) ''area'' = None
            \<longrightarrow> area (make_todo dir st f md) = ''general'')
       \<and> (\<not> readable e \<or> \<not> startsWith (content e) ''---''
              \<or> indexOf (content e) (LF # ''---'') 3 = None
            \<longrightarrow> read_todo fs dir st f =
                  \<lparr> idf = f, status = st, title = strip_md f, area = ''general'', created = [],
                    files = [], path = FilePath dir f \<rparr>)"
proof -
  let ?names = "map fst (entries d)"
  from assms(2) have n: "readdirSync d = Inr ?names"
    by (simp add: readdirSync_def)
  from assms(3) have "f \<in> set ?names"
    by (auto dest: map_of_SomeD intro: rev_image_eqI)
  with assms(4) have "f \<in> set (sort (filter (\<lambda>f. endsWith f ''.md'') ?names))"
    by simp
  then have "read_todo fs dir st f
      \<in> set (map (read_todo fs dir st) (sort (filter (\<lambda>f. endsWith f ''.md'') ?names)))"
    by simp
  with readTodos_listed [OF assms(1) n, of st]
  have 1: "\<exists>items. fst (readTodos fs dir st) = Inr items \<and> read_todo fs dir st f \<in> set items"
    by blast
  note 2 = read_todo_entry [OF assms(1,3), of st]
  have 3: "\<not> startsWith md ''---'' \<or> indexOf md (LF # ''---'') 3 = None
            \<Longrightarrow> fst (parseFrontmatter md) = Map.empty"
    by (simp add: parseFrontmatter_unmarked)
  have 4: "fst (parseFrontmatter md) ''title'' = None
            \<Longrightarrow> title (make_todo dir st f md) = strip_md f"
    by (simp add: make_todo_def Let_def trim_def or_else_def)
  have 5: "fst (parseFrontmatter md) ''area'' = None
            \<Longrightarrow> area (make_todo dir st f md) = ''general''"
    by (simp add: make_todo_def Let_def trim_def or_else_def)
  have 6: "read_todo fs dir st f =
             \<lparr> idf = f, status = st, title = strip_md f, area = ''general'', created = [],
               files = [], path = FilePath dir f \<rparr>"
    if "\<not> readable e \<or> \<not> startsWith (content e) ''---''
          \<or> indexOf (content e) (LF # ''---'') 3 = None"
  proof (cases "readable e")
    case True
    with that have "parseFrontmatter (content e) = (Map.empty, content e)"
      by (intro parseFrontmatter_unmarked) simp
    with True show ?thesis by (simp add: 2 make_todo_defaults)
  next
    case False
    then show ?thesis by (simp add: 2 make_todo_defaults parseFrontmatter_Nil)
  qed
  have 0: "idf (read_todo fs dir st f) = f" by (rule idf_read_todo)
  from 0 1 2 3 4 5 6 show ?thesis by blast
qed

theorem bad_file_still_listed_witness:
  "fst (readTodos mixed_fs Pending Pending) =
     Inr [\<lparr> idf = ''a.md'', status = Pending, title = ''a'', area = ''general'', created = [],
            files = [], path = FilePath Pending ''a.md'' \<rparr>,
          \<lparr> idf = ''b.md'', status = Pending, title = ''b'', area = ''general'', created = [],
            files = [], path = FilePath Pending ''b.md'' \<rparr>]
   \<and> read_todo mixed_fs Pending Pending ''b.md'' =
       \<lparr> idf = ''b.md'', status = Pending, title = ''b'', area = ''general'', created = [],
         files = [], path = FilePath Pending ''b.md'' \<rparr>
   \<and> read_todo mixed_fs Pending Pending ''a.md'' =
       \<lparr> idf = ''a.md'', status = Pending, title = ''a'', area = ''general'', created = [],
         files = [], path = FilePath Pending ''a.md'' \<rparr>"
proof -
  let ?d = "\<lparr> listable = True, writable = True,
          entries = [(''b.md'', File False ''---''),
                     (''notes.txt'', File True ''text''),
                     (''a.md'', File True (''---'' @ [LF] @ ''title: never closed''))] \<rparr>"
  have m: "fs_dir mixed_fs Pending = Some ?d" by (simp add: mixed_fs_def)
  have ls: "listable ?d" by simp
  have b: "map_of (entries ?d) ''b.md'' = Some (File False ''---'')" by simp
  have a: "map_of (entries ?d) ''a.md'' = Some (File True (''---'' @ [LF] @ ''title: never closed''))"
    by simp
  have eb: "endsWith ''b.md'' ''.md''" and ea: "endsWith ''a.md'' ''.md''"
    by (simp_all add: endsWith_def)
  have open_a: "indexOf (''---'' @ [LF] @ ''title: never closed'') (LF # ''---'') 3 = None"
    by code_simp
  have sb: "strip_md ''b.md'' = ''b''" and sa: "strip_md ''a.md'' = ''a''"
    by (simp_all add: strip_md_def endsWith_def)
  have l: "fst (readTodos mixed_fs Pending Pending) =
     Inr [\<lparr> idf = ''a.md'', status = Pending, title = ''a'', area = ''general'', created = [],
            files = [], path = FilePath Pending ''a.md'' \<rparr>,
          \<lparr> idf = ''b.md'', status = Pending, title = ''b'', area = ''general'', created = [],
            files = [], path = FilePath Pending ''b.md'' \<rparr>]"
    by code_simp
  have nb: "\<not> readable (File False ''---'')" by simp
  from bad_file_still_listed [OF m ls b eb, of Pending "[]"] nb
  have "read_todo mixed_fs Pending Pending ''b.md'' =
       \<lparr> idf = ''b.md'', status = Pending, title = strip_md ''b.md'', area = ''general'',
         created = [], files = [], path = FilePath Pending ''b.md'' \<rparr>"
    by blast
  then have 1: "read_todo mixed_fs Pending Pending ''b.md'' =
       \<lparr> idf = ''b.md'', status = Pending, title = ''b'', area = ''general'', created = [],
         files = [], path = FilePath Pending ''b.md'' \<rparr>"
    by (simp only: sb)
  have na: "indexOf (content (File True (''---'' @ [LF] @ ''title: never closed''))) (LF # ''---'') 3
              = None"
    using open_a by simp
  from bad_file_still_listed [OF m ls a ea, of Pending "[]"] na
  have "read_todo mixed_fs Pending Pending ''a.md'' =
       \<lparr> idf = ''a.md'', status = Pending, title = strip_md ''a.md'', area = ''general'',
         created = [], files = [], path = FilePath Pending ''a.md'' \<rparr>"
    by blast
  then have 2: "read_todo mixed_fs Pending Pending ''a.md'' =
       \<lparr> idf = ''a.md'', status = Pending, title = ''a'', area = ''general'', created = [],
         files = [], path = FilePath Pending ''a.md'' \<rparr>"
    by (simp only: sa)
  from l 1 2 show ?thesis by blast
qed

subsection \<open>Scalars and lists in the front matter\<close>

lemma parse_line_key:
  "match_key line = Some (k, v) \<Longrightarrow> v = [] \<or> k \<noteq> ''__proto__'' \<Longrightarrow>
   parse_line line (fm, ck) = (fm(k \<mapsto> (if v = [] then ListV [] else Scalar v)), Some k)"
  by auto

lemma fold_items_list:
  "fm k = Some (ListV xs) \<Longrightarrow> list_all (\<lambda>l. match_key l = None) ls \<Longrightarrow>
   fold parse_line ls (fm, Some k) = (fm(k \<mapsto> ListV (xs @ List.map_filter match_item ls)), Some k)"
proof (induction ls arbitrary: fm xs)
  case Nil
  then show ?case by auto
next
  case (Cons l ls)
  from Cons.prems(2) have nk: "match_key l = None" and rest: "list_all (\<lambda>l. match_key l = None) ls"
    by simp_all
  show ?case
  proof (cases "match_item l")
    case None
    with nk have "parse_line l (fm, Some k) = (fm, Some k)" by simp
    with Cons.IH [of fm xs, OF Cons.prems(1) rest] None show ?thesis
      by simp
  next
    case (Some it)
    let ?fm = "fm(k \<mapsto> ListV (xs @ [it]))"
    from nk Some Cons.prems(1) have step: "parse_line l (fm, Some k) = (?fm, Some k)" by simp
    have "?fm k = Some (ListV (xs @ [it]))" by simp
    note ih = Cons.IH [of ?fm "xs @ [it]", OF this rest]
    have "fold parse_line (l # ls) (fm, Some k) = fold parse_line ls (?fm, Some k)"
      using step by (simp del: parse_line.simps)
    also have "\<dots> = (fm(k \<mapsto> ListV (xs @ it # List.map_filter match_item ls)), Some k)"
      by (simp only: ih fun_upd_upd append_assoc append_Cons append_Nil)
    finally have "fold parse_line (l # ls) (fm, Some k)
        = (fm(k \<mapsto> ListV (xs @ it # List.map_filter match_item ls)), Some k)" .
    moreover have "List.map_filter match_item (l # ls) = it # List.map_filter match_item ls"
      using Some by simp
    ultimately show ?thesis by (simp only:)
  qed
qed

lemma fold_items_scalar:
  "fm k = Some (Scalar v) \<Longrightarrow> list_all (\<lambda>l. match_key l = None) ls \<Longrightarrow>
   fold parse_line ls (fm, Some k) = (fm, Some k)"
proof (induction ls)
  case Nil
  then show ?case by simp
next
  case (Cons l ls)
  from Cons.prems(2) have "match_key l = None" and rest: "list_all (\<lambda>l. match_key l = None) ls"
    by simp_all
  with Cons.prems(1) have "parse_line l (fm, Some k) = (fm, Some k)"
    by (simp split: option.split)
  with Cons.IH [OF Cons.prems(1) rest] show ?case by simp
qed

lemma parse_lines_after_key:
  assumes "match_key l = Some (k, v)" and "list_all (\<lambda>l. match_key l = None) post"
      and "v = [] \<or> k \<noteq> ''__proto__''"
  shows "parse_lines (pre @ l # post) k =
           Some (if v = [] then ListV (List.map_filter match_item post) else Scalar v)"
proof -
  obtain fm0 ck0 where p: "fold parse_line pre (Map.empty, None) = (fm0, ck0)"
    by (cases "fold parse_line pre (Map.empty, None)")
  let ?fm = "fm0(k \<mapsto> (if v = [] then ListV [] else Scalar v))"
  have step: "parse_line l (fm0, ck0) = (?fm, Some k)"
    using assms(1,3) by (rule parse_line_key)
  have run: "fold parse_line (pre @ l # post) (Map.empty, None) = fold parse_line post (?fm, Some k)"
    by (simp only: fold_append fold_simps comp_apply p step)
  show ?thesis
  proof (cases "v = []")
    case True
    then have "?fm k = Some (ListV [])" by simp
    from fold_items_list [of ?fm k "[]" post, OF this assms(2)] True show ?thesis
      unfolding parse_lines_def run by simp
  next
    case False
    then have "?fm k = Some (Scalar v)" by simp
    from fold_items_scalar [of ?fm k v post, OF this assms(2)] False show ?thesis
      unfolding parse_lines_def run by simp
  qed
qed

text \<open>
  C10, as amended.  A key line sets its key to the empty list when its value is empty
  and to the value otherwise, and becomes the current key.  When the lines after it are
  not key lines, a key with an empty value ends up with the items of those lines, in
  order, and a key with a value keeps that value and collects nothing.  The key
  \<^verbatim>\<open>__proto__\<close> with a value is left out of both statements.  In the item, a
  title that is a list becomes the items joined by commas and trimmed, and falls back to
  the file name without \<^verbatim>\<open>.md\<close> when that text is empty, in particular when no item
  was collected; the files are the list under \<^verbatim>\<open>files\<close> when that key holds a list
  and empty otherwise.
\<close>

theorem empty_value_collects_items:
  "(match_key line = Some (k, v) \<and> (v = [] \<or> k \<noteq> ''__proto__'') \<longrightarrow>
      parse_line line (fm, ck) = (fm(k \<mapsto> (if v = [] then ListV [] else Scalar v)), Some k))
   \<and> (match_key line = Some (k, []) \<and> list_all (\<lambda>l. match_key l = None) post \<longrightarrow>
        parse_lines (pre @ line # post) k = Some (ListV (List.map_filter match_item post)))
   \<and> (match_key line = Some (k, v) \<and> v \<noteq> [] \<and> k \<noteq> ''__proto__''
        \<and> list_all (\<lambda>l. match_key l = None) post \<longrightarrow>
        parse_lines (pre @ line # post) k = Some (Scalar v))
   \<and> (fst (parseFrontmatter md) ''title'' = Some (ListV items) \<longrightarrow>
        title (make_todo dir st f md) = or_else (trim (join_comma items)) (strip_md f))
   \<and> (fst (parseFrontmatter md) ''title'' = Some (ListV []) \<longrightarrow>
        title (make_todo dir st f md) = strip_md f)
   \<and> (fst (parseFrontmatter md) ''files'' = Some (ListV items) \<longrightarrow>
        files (make_todo dir st f md) = items)
   \<and> (fst (parseFrontmatter md) ''files'' = Some (Scalar s) \<or> fst (parseFrontmatter md) ''files'' = None \<longrightarrow>
        files (make_todo dir st f md) = [])"
proof -
  have t: "fst (parseFrontmatter md) ''title'' = Some (ListV items) \<Longrightarrow>
        title (make_todo dir st f md) = or_else (trim (join_comma items)) (strip_md f)" for items
    by (simp add: make_todo_def Let_def)
  have t0: "fst (parseFrontmatter md) ''title'' = Some (ListV []) \<Longrightarrow>
        title (make_todo dir st f md) = strip_md f"
    by (simp add: t trim_def or_else_def)
  have f1: "fst (parseFrontmatter md) ''files'' = Some (ListV items) \<Longrightarrow>
        files (make_todo dir st f md) = items"
    by (simp add: make_todo_def Let_def)
  have f2: "fst (parseFrontmatter md) ''files'' = Some (Scalar s) \<or> fst (parseFrontmatter md) ''files'' = None \<Longrightarrow>
        files (make_todo dir st f md) = []"
    by (auto simp: make_todo_def Let_def)
  have a: "match_key line = Some (k, []) \<Longrightarrow> list_all (\<lambda>l. match_key l = None) post \<Longrightarrow>
        parse_lines (pre @ line # post) k = Some (ListV (List.map_filter match_item post))"
    using parse_lines_after_key [of line k "[]" post pre] by simp
  have b: "match_key line = Some (k, v) \<Longrightarrow> v \<noteq> [] \<Longrightarrow> k \<noteq> ''__proto__'' \<Longrightarrow>
        list_all (\<lambda>l. match_key l = None) post \<Longrightarrow>
        parse_lines (pre @ line # post) k = Some (Scalar v)"
    using parse_lines_after_key [of line k v post pre] by simp
  from parse_line_key [of line k v fm ck] a b t [of items] t0 f1 f2
  show ?thesis by blast
qed

theorem empty_value_collects_items_witness:
  "split_lines (trim (slice full_md 3 50)) =
     [''title:'', ''area: ui'', ''- stray'', ''files:'', ''  - a.js'', ''- b.js'']
   \<and> indexOf full_md (LF # ''---'') 3 = Some 50
   \<and> fst (parseFrontmatter full_md) ''title'' = Some (ListV [])
   \<and> fst (parseFrontmatter full_md) ''area'' = Some (Scalar ''ui'')
   \<and> fst (parseFrontmatter full_md) ''files'' = Some (ListV [''a.js'', ''b.js''])
   \<and> make_todo Pending Pending ''a1.md'' full_md =
       \<lparr> idf = ''a1.md'', status = Pending, title = ''a1'', area = ''ui'', created = [],
         files = [''a.js'', ''b.js''], path = FilePath Pending ''a1.md'' \<rparr>"
proof -
  have 1: "split_lines (trim (slice full_md 3 50)) =
     [''title:'', ''area: ui'', ''- stray'', ''files:'', ''  - a.js'', ''- b.js'']"
    by code_simp
  have 2: "indexOf full_md (LF # ''---'') 3 = Some 50" by code_simp
  have 3: "fst (parseFrontmatter full_md) ''title'' = Some (ListV [])" by code_simp
  have 4: "fst (parseFrontmatter full_md) ''area'' = Some (Scalar ''ui'')" by code_simp
  have 5: "fst (parseFrontmatter full_md) ''files'' = Some (ListV [''a.js'', ''b.js''])" by code_simp
  have 6: "area (make_todo Pending Pending ''a1.md'' full_md) = ''ui''" by code_simp
  have 7: "created (make_todo Pending Pending ''a1.md'' full_md) = []" by code_simp
  have 8: "strip_md ''a1.md'' = ''a1''" by code_simp
  from empty_value_collects_items [where md = full_md and items = "[''a.js'', ''b.js'']"
      and dir = Pending and st = Pending and f = "''a1.md''"] 3 5
  have "title (make_todo Pending Pending ''a1.md'' full_md) = strip_md ''a1.md''
      \<and> files (make_todo Pending Pending ''a1.md'' full_md) = [''a.js'', ''b.js'']"
    by blast
  with 6 7 8 have "make_todo Pending Pending ''a1.md'' full_md =
       \<lparr> idf = ''a1.md'', status = Pending, title = ''a1'', area = ''ui'', created = [],
         files = [''a.js'', ''b.js''], path = FilePath Pending ''a1.md'' \<rparr>"
    by (simp add: make_todo_def Let_def)
  with 1 2 3 4 5 show ?thesis by blast
qed

text \<open>
  C10 as stated fails on \<^const>\<open>listy_md\<close>: the line \<^verbatim>\<open>title:\<close> has no value, and the
  title of the item is the collected item \<^verbatim>\<open>x\<close>, not the file name without its
  suffix.
\<close>

theorem title_from_items_counterexample:
  "split_lines (trim (slice listy_md 3 14)) = [''title:'', ''- x'']
   \<and> indexOf listy_md (LF # ''---'') 3 = Some 14
   \<and> match_key ''title:'' = Some (''title'', [])
   \<and> title (make_todo Pending Pending ''a1.md'' listy_md) = ''x''
   \<and> strip_md ''a1.md'' = ''a1''"
  by code_simp

end
